theory Spec2Isabelle
  imports Main
begin

section \<open>csv-file-copy.py: values, exceptions, command line\<close>

text \<open>
  The script copies the files named in one column of a CSV file from a source directory
  to a target directory. Its collaborators from the Python library
  (\<^verbatim>\<open>os.path.exists\<close>, \<^verbatim>\<open>os.path.join\<close>, \<^verbatim>\<open>os.path.abspath\<close>, \<^verbatim>\<open>shutil.copy\<close>,
  \<^verbatim>\<open>open\<close> with \<^verbatim>\<open>csv.reader\<close>, \<^verbatim>\<open>sys.platform\<close>, \<^verbatim>\<open>winreg\<close>) are parameters of the
  model; a POSIX instance of them is given further down and used wherever a statement
  needs a concrete file system.
\<close>

datatype exn =
    TypeError
  | FileNotFoundError
  | IsADirectoryError
  | NotADirectoryError
  | PermissionError
  | SameFileError
  | CsvError
  | SystemExit nat string

text \<open>The \<^verbatim>\<open>argparse.Namespace\<close> of lines 38-50.\<close>

record args =
  csv_file :: string
  source_dir :: string
  target_dir :: string
  column_name :: string
  quiet :: bool
  overwrite :: bool
  dry_run :: bool

text \<open>
  What the script reads of the platform (lines 9-16): \<^verbatim>\<open>sys.platform\<close>, and the two
  registry calls, each of which may raise. \<^verbatim>\<open>OpenKey\<close> takes the sub-key under
  \<^verbatim>\<open>HKEY_LOCAL_MACHINE\<close> (\<open>None\<close>: the key opened), \<^verbatim>\<open>QueryValueEx\<close> the sub-key and
  the value name and returns the first component of its result, a \<^verbatim>\<open>REG_DWORD\<close>.
\<close>

record sys =
  platform :: string
  OpenKey :: "string \<Rightarrow> exn option"
  QueryValueEx :: "string \<Rightarrow> string \<Rightarrow> exn + int"

text \<open>
  The library functions that \<^verbatim>\<open>main\<close> calls, over a file system of type \<open>'fs\<close>.
  \<open>copy src dst\<close> is \<^verbatim>\<open>shutil.copy(src, dst)\<close>: the file system after the copy, or the
  exception raised together with the file system as the failed copy left it.
  \<open>read_csv\<close> stands for \<^verbatim>\<open>open(path)\<close> followed by \<^verbatim>\<open>csv.reader\<close>: the rows of the
  file, each a list of cells, or the exception raised.
\<close>

record 'fs os =
  env :: sys
  exists :: "'fs \<Rightarrow> string \<Rightarrow> bool"
  join :: "string \<Rightarrow> string \<Rightarrow> string"
  abspath :: "string \<Rightarrow> string"
  copy :: "string \<Rightarrow> string \<Rightarrow> 'fs \<Rightarrow> (exn \<times> 'fs) + 'fs"
  read_csv :: "'fs \<Rightarrow> string \<Rightarrow> exn + string list list"

section \<open>Path-length policy (lines 8-31)\<close>

definition fs_key :: string where
  "fs_key = ''SYSTEM'' @ [CHR 0x5C] @ ''CurrentControlSet'' @ [CHR 0x5C] @ ''Control'' @
     [CHR 0x5C] @ ''FileSystem''"

text \<open>
  \<^verbatim>\<open>is_long_path_available\<close>: on \<^verbatim>\<open>win32\<close> the key is opened outside the \<^verbatim>\<open>try\<close>, so
  its exception propagates; of the exceptions of \<^verbatim>\<open>QueryValueEx\<close> only
  \<^verbatim>\<open>FileNotFoundError\<close> is caught and leaves \<^verbatim>\<open>long_paths = 0\<close>; the result is
  \<^verbatim>\<open>bool(long_paths)\<close>.
\<close>

definition is_long_path_available :: "sys \<Rightarrow> exn + bool" where
  "is_long_path_available e =
     (if platform e = ''win32'' then
        (case OpenKey e fs_key of
           Some x \<Rightarrow> Inl x
         | None \<Rightarrow>
            (case QueryValueEx e fs_key ''LongPathsEnabled'' of
               Inr long_paths \<Rightarrow> Inr (long_paths \<noteq> 0)
             | Inl FileNotFoundError \<Rightarrow> Inr ((0::int) \<noteq> 0)
             | Inl x \<Rightarrow> Inl x))
      else Inr True)"

definition check_path_length :: "sys \<Rightarrow> string \<Rightarrow> exn + bool" where
  "check_path_length e path =
     (case is_long_path_available e of
        Inl x \<Rightarrow> Inl x
      | Inr available \<Rightarrow> Inr (available \<or> length path < 260))"

section \<open>Filename extraction (lines 65-73)\<close>

text \<open>
  A cell read through \<^verbatim>\<open>csv.DictReader\<close> is a \<^verbatim>\<open>str\<close>, or \<^verbatim>\<open>None\<close> (the reader's
  \<^verbatim>\<open>restval\<close>) for a column the row is too short to reach.
\<close>

type_synonym cell = "string option"

text \<open>
  One row as \<^verbatim>\<open>DictReader.__next__\<close> builds it: \<^verbatim>\<open>dict(zip(fieldnames, row))\<close>, then
  \<^verbatim>\<open>restval\<close> under every field name beyond the row's length. The surplus cells of a
  long row go under the key \<^verbatim>\<open>None\<close>, which no column name (a \<^verbatim>\<open>str\<close>) equals; that
  entry is left out.
\<close>

definition dict_row :: "string list \<Rightarrow> string list \<Rightarrow> (string \<rightharpoonup> cell)" where
  "dict_row fieldnames row =
     fold (\<lambda>key d. d(key \<mapsto> None)) (drop (length row) fieldnames)
       (fold (\<lambda>(key, v) d. d(key \<mapsto> Some v)) (zip fieldnames row) Map.empty)"

text \<open>
  \<^verbatim>\<open>DictReader\<close> over the rows of \<^verbatim>\<open>csv.reader\<close>: the first row gives the field names,
  and empty rows after it are skipped.
\<close>

fun DictReader :: "string list list \<Rightarrow> (string \<rightharpoonup> cell) list" where
  "DictReader [] = []"
| "DictReader (fieldnames # rows) = map (dict_row fieldnames) (filter (\<lambda>row. row \<noteq> []) rows)"

text \<open>
  The comprehension \<^verbatim>\<open>[row[column_name] for row in reader]\<close>: the first row without the
  key raises \<^verbatim>\<open>KeyError\<close> (\<open>None\<close> here), which line 70 catches.
\<close>

fun column :: "string \<Rightarrow> (string \<rightharpoonup> cell) list \<Rightarrow> cell list option" where
  "column name [] = Some []"
| "column name (row # rows) =
     (case row name of
        None \<Rightarrow> None
      | Some v \<Rightarrow> (case column name rows of None \<Rightarrow> None | Some vs \<Rightarrow> Some (v # vs)))"

text \<open>
  \<^verbatim>\<open>OrderedDict\<close> as an association list in insertion order: assigning to a key that
  is present keeps its position, a new key goes to the end.
\<close>

fun setitem :: "'k \<Rightarrow> 'v \<Rightarrow> ('k \<times> 'v) list \<Rightarrow> ('k \<times> 'v) list" where
  "setitem k v [] = [(k, v)]"
| "setitem k v ((k', v') # d) = (if k' = k then (k, v) # d else (k', v') # setitem k v d)"

definition fromkeys :: "'k list \<Rightarrow> ('k \<times> unit) list" where
  "fromkeys ks = fold (\<lambda>k d. setitem k () d) ks []"

text \<open>Line 73: \<^verbatim>\<open>list(OrderedDict.fromkeys(files))\<close>.\<close>

definition remove_duplicates :: "'k list \<Rightarrow> 'k list" where
  "remove_duplicates files = map fst (fromkeys files)"


text \<open>
  The values of \<open>xs\<close>, each once, at the place of its first appearance (the library's
  \<open>remdups\<close> keeps the last one).
\<close>

definition first_seen :: "'a list \<Rightarrow> 'a list" where
  "first_seen xs = rev (remdups (rev xs))"

section \<open>Run state and standard output\<close>

text \<open>
  The state a run threads through: the file system, the lines printed so far, and the
  four counters of lines 75-78.
\<close>

record 'fs state =
  fs :: 'fs
  stdout :: "string list"
  copied :: int
  not_found :: int
  already_exist :: int
  path_error :: int

definition init :: "'fs \<Rightarrow> 'fs state" where
  "init t = \<lparr>fs = t, stdout = [], copied = 0, not_found = 0, already_exist = 0, path_error = 0\<rparr>"

definition print :: "string \<Rightarrow> 'fs state \<Rightarrow> 'fs state" where
  "print line s = s\<lparr>stdout := stdout s @ [line]\<rparr>"

text \<open>\<^verbatim>\<open>if not args.quiet: print(...)\<close>.\<close>

definition say :: "args \<Rightarrow> string \<Rightarrow> 'fs state \<Rightarrow> 'fs state" where
  "say a line s = (if \<not> quiet a then print line s else s)"

definition quoted :: "string \<Rightarrow> string" where
  "quoted s = [CHR 0x22] @ s @ [CHR 0x22]"

definition str_bool :: "bool \<Rightarrow> string" where
  "str_bool b = (if b then ''True'' else ''False'')"

fun str_nat :: "nat \<Rightarrow> string" where
  "str_nat n =
     (if n < 10 then [char_of (48 + n)] else str_nat (n div 10) @ [char_of (48 + n mod 10)])"

declare str_nat.simps [simp del]

definition str_int :: "int \<Rightarrow> string" where
  "str_int i = (if i < 0 then CHR ''-'' # str_nat (nat (- i)) else str_nat (nat i))"

text \<open>\<^verbatim>\<open>parser.error(message)\<close>: usage and message on standard error, exit status 2.\<close>

definition parser_error :: "string \<Rightarrow> exn" where
  "parser_error message = SystemExit 2 message"

section \<open>\<^verbatim>\<open>main\<close> (lines 34-118)\<close>

text \<open>Lines 52-59.\<close>

definition print_config :: "args \<Rightarrow> 'fs state \<Rightarrow> 'fs state" where
  "print_config a s =
     fold (say a)
       [''CSV file: '' @ quoted (csv_file a),
        ''Column to read: '' @ quoted (column_name a),
        ''Source directory: '' @ quoted (source_dir a),
        ''Destination directory: '' @ quoted (target_dir a),
        ''Overwrite existing: '' @ str_bool (overwrite a),
        ''Dry Run: '' @ str_bool (dry_run a),
        []] s"

text \<open>Lines 61-63: the first of the given paths that does not exist ends the run.\<close>

fun validate :: "'fs os \<Rightarrow> 'fs \<Rightarrow> string list \<Rightarrow> exn option" where
  "validate os t [] = None"
| "validate os t (file # files) =
     (if \<not> exists os t file then Some (parser_error (quoted file @ '' does not exist''))
      else validate os t files)"

text \<open>Lines 65-73: the cells of the column, without duplicates.\<close>

definition filenames :: "'fs os \<Rightarrow> args \<Rightarrow> 'fs \<Rightarrow> exn + cell list" where
  "filenames os a t =
     (case read_csv os t (csv_file a) of
        Inl x \<Rightarrow> Inl x
      | Inr rows \<Rightarrow>
         (case column (column_name a) (DictReader rows) of
            None \<Rightarrow> Inl (parser_error (''Column '' @ quoted (column_name a) @ '' does not exist''))
          | Some files \<Rightarrow> Inr (remove_duplicates files)))"

text \<open>
  The four branches of the chain of lines 82-106, in the order of the source.
\<close>

datatype outcome = AlreadyExists | Copied | PathError | NotFound

text \<open>
  Which branch the chain takes for \<open>file\<close> (lines 80, 82, 88, 96, 102). Python's
  \<^verbatim>\<open>and\<close> evaluates its right operand only when the left one holds, so the path-length
  check, which may raise, runs only for a source file that exists.
\<close>

definition classify :: "'fs os \<Rightarrow> args \<Rightarrow> 'fs \<Rightarrow> string \<Rightarrow> exn + outcome" where
  "classify os a t file =
     (let source_file_exists = exists os t (join os (source_dir a) file) in
      if \<not> overwrite a \<and> exists os t (join os (target_dir a) file) then Inr AlreadyExists
      else
        (case (if source_file_exists
               then check_path_length (env os) (abspath os (join os (target_dir a) file))
               else Inr False) of
           Inl x \<Rightarrow> Inl x
         | Inr True \<Rightarrow> Inr Copied
         | Inr False \<Rightarrow> Inr (if source_file_exists then PathError else NotFound)))"

text \<open>
  One iteration of the loop of line 79. A cell that is \<^verbatim>\<open>None\<close> makes \<^verbatim>\<open>join\<close> raise
  \<^verbatim>\<open>TypeError\<close> on line 80. An exception is returned with the state it interrupts.
\<close>

definition loop_body :: "'fs os \<Rightarrow> args \<Rightarrow> cell \<Rightarrow> 'fs state \<Rightarrow> (exn \<times> 'fs state) + 'fs state" where
  "loop_body os a c s =
     (case c of
        None \<Rightarrow> Inl (TypeError, s)
      | Some file \<Rightarrow>
         (case classify os a (fs s) file of
            Inl x \<Rightarrow> Inl (x, s)
          | Inr AlreadyExists \<Rightarrow>
             (let s = say a (''Skipping '' @ quoted file) s
              in Inr (s\<lparr>already_exist := already_exist s + 1\<rparr>))
          | Inr Copied \<Rightarrow>
             (let s = say a (''Copying '' @ quoted file @ ''...'') s in
              if \<not> dry_run a then
                (case copy os (join os (source_dir a) file) (target_dir a) (fs s) of
                   Inl (x, t) \<Rightarrow> Inl (x, s\<lparr>fs := t\<rparr>)
                 | Inr t \<Rightarrow> Inr (s\<lparr>fs := t, copied := copied s + 1\<rparr>))
              else Inr (s\<lparr>copied := copied s + 1\<rparr>))
          | Inr PathError \<Rightarrow>
             (let s = say a (''Path length too long, skipping: '' @ quoted file) s
              in Inr (s\<lparr>path_error := path_error s + 1\<rparr>))
          | Inr NotFound \<Rightarrow>
             (let s = say a (''File '' @ quoted file @ '' does not exist'') s
              in Inr (s\<lparr>not_found := not_found s + 1\<rparr>))))"

fun dispatch :: "'fs os \<Rightarrow> args \<Rightarrow> cell list \<Rightarrow> 'fs state \<Rightarrow> (exn \<times> 'fs state) + 'fs state" where
  "dispatch os a [] s = Inr s"
| "dispatch os a (file # files) s =
     (case loop_body os a file s of
        Inl x \<Rightarrow> Inl x
      | Inr s' \<Rightarrow> dispatch os a files s')"

text \<open>Lines 108-118; a counter that is zero is falsy.\<close>

definition report :: "args \<Rightarrow> 'fs state \<Rightarrow> 'fs state" where
  "report a s =
     (let s = say a [] s;
          s = say a ''Operation complete'' s;
          s = say a (str_int (copied s) @ '' files copied'') s;
          s = (if not_found s \<noteq> 0
               then say a (str_int (not_found s) @ '' files not found in source'') s else s);
          s = (if already_exist s \<noteq> 0
               then say a (str_int (already_exist s) @ '' files already exist in destination'') s
               else s)
      in if path_error s \<noteq> 0
         then say a (str_int (path_error s) @
                '' files have path lengths that are too long for the destination'') s
         else s)"

text \<open>
  The whole run on a file system \<open>t\<close>: \<open>Inr\<close> the final state of a run that ends
  normally (exit status 0), \<open>Inl\<close> the exception that ends it otherwise
  (\<open>SystemExit 2\<close> for \<^verbatim>\<open>parser.error\<close>), with the state reached.
\<close>

definition main :: "'fs os \<Rightarrow> args \<Rightarrow> 'fs \<Rightarrow> (exn \<times> 'fs state) + 'fs state" where
  "main os a t =
     (let s = print_config a (init t) in
      case validate os t [csv_file a, source_dir a, target_dir a] of
        Some x \<Rightarrow> Inl (x, s)
      | None \<Rightarrow>
         (case filenames os a t of
            Inl x \<Rightarrow> Inl (x, s)
          | Inr files \<Rightarrow>
             (case dispatch os a files s of
                Inl x \<Rightarrow> Inl x
              | Inr s' \<Rightarrow> Inr (report a s'))))"


text \<open>The state a run ends in, normally or not.\<close>

definition final :: "(exn \<times> 'fs state) + 'fs state \<Rightarrow> 'fs state" where
  "final r = (case r of Inl (x, s) \<Rightarrow> s | Inr s \<Rightarrow> s)"

text \<open>The sum of the four counters.\<close>

definition total :: "'fs state \<Rightarrow> int" where
  "total s = copied s + not_found s + already_exist s + path_error s"

text \<open>The counters of a state, in the order copied, not found, already exist, path error.\<close>

definition counters :: "'fs state \<Rightarrow> int \<times> int \<times> int \<times> int" where
  "counters s = (copied s, not_found s, already_exist s, path_error s)"

section \<open>A POSIX instance of the library functions\<close>

text \<open>
  A file system without links: a tree of directories and regular files, addressed by
  the list of names from the root. The root is always a directory. The content of a
  file is of an arbitrary type \<open>'c\<close>; \<^verbatim>\<open>shutil.copy\<close> duplicates it.
\<close>

type_synonym path = "string list"

datatype 'c node = Dir | File 'c

type_synonym 'c tree = "path \<Rightarrow> 'c node option"

definition node_at :: "'c tree \<Rightarrow> path \<Rightarrow> 'c node option" where
  "node_at t p = (if p = [] then Some Dir else t p)"

text \<open>\<^verbatim>\<open>str.split('/')\<close>.\<close>

fun split_slash :: "string \<Rightarrow> string list" where
  "split_slash [] = [[]]"
| "split_slash (c # cs) =
     (if c = CHR ''/'' then [] # split_slash cs
      else (c # hd (split_slash cs)) # tl (split_slash cs))"

text \<open>\<^verbatim>\<open>'/'.join(comps)\<close>.\<close>

fun join_slash :: "string list \<Rightarrow> string" where
  "join_slash [] = []"
| "join_slash [c] = c"
| "join_slash (c # cs) = c @ ''/'' @ join_slash cs"

text \<open>
  Path resolution as the kernel does it for \<^verbatim>\<open>stat\<close>: every component, the empty one
  of a doubled or trailing slash included, is looked up in a directory.
\<close>

fun walk :: "'c tree \<Rightarrow> path \<Rightarrow> string list \<Rightarrow> path option" where
  "walk t cur [] = (if node_at t cur = None then None else Some cur)"
| "walk t cur (c # cs) =
     (if node_at t cur \<noteq> Some Dir then None
      else if c = [] \<or> c = ''.'' then walk t cur cs
      else if c = ''..'' then walk t (butlast cur) cs
      else if node_at t (cur @ [c]) = None then None
      else walk t (cur @ [c]) cs)"

text \<open>
  The node a path string names, for a process whose working directory is \<open>cwd\<close>;
  the empty path names nothing.
\<close>

definition resolve :: "path \<Rightarrow> 'c tree \<Rightarrow> string \<Rightarrow> path option" where
  "resolve cwd t p =
     (if p = [] then None
      else walk t (if hd p = CHR ''/'' then [] else cwd) (split_slash p))"

text \<open>\<^verbatim>\<open>os.path.exists\<close>, \<^verbatim>\<open>os.path.isdir\<close>: whether \<^verbatim>\<open>stat\<close> succeeds (on a directory).\<close>

definition posix_exists :: "path \<Rightarrow> 'c tree \<Rightarrow> string \<Rightarrow> bool" where
  "posix_exists cwd t p = (resolve cwd t p \<noteq> None)"

definition posix_isdir :: "path \<Rightarrow> 'c tree \<Rightarrow> string \<Rightarrow> bool" where
  "posix_isdir cwd t p =
     (case resolve cwd t p of None \<Rightarrow> False | Some q \<Rightarrow> node_at t q = Some Dir)"

text \<open>A file name proper: one path component that is neither empty nor a dot entry.\<close>

definition plain :: "string \<Rightarrow> bool" where
  "plain f = (f \<noteq> [] \<and> CHR ''/'' \<notin> set f \<and> f \<noteq> ''.'' \<and> f \<noteq> ''..'')"

text \<open>\<^verbatim>\<open>posixpath.join(a, b)\<close>.\<close>

definition posix_join :: "string \<Rightarrow> string \<Rightarrow> string" where
  "posix_join a b =
     (if b \<noteq> [] \<and> hd b = CHR ''/'' then b
      else if a = [] \<or> last a = CHR ''/'' then a @ b
      else a @ ''/'' @ b)"

text \<open>\<^verbatim>\<open>posixpath.basename(p)\<close>: what follows the last slash.\<close>

definition basename :: "string \<Rightarrow> string" where
  "basename p = rev (takeWhile (\<lambda>c. c \<noteq> CHR ''/'') (rev p))"

text \<open>\<^verbatim>\<open>posixpath.normpath\<close> and \<^verbatim>\<open>posixpath.abspath\<close>.\<close>

definition normpath :: "string \<Rightarrow> string" where
  "normpath path =
     (if path = [] then ''.''
      else
        (let initial_slashes =
               (if take 1 path = ''/''
                then (if take 2 path = ''//'' \<and> take 3 path \<noteq> ''///'' then 2 else 1)
                else (0::nat));
             comps =
               fold (\<lambda>comp new_comps.
                   if comp = [] \<or> comp = ''.'' then new_comps
                   else if comp \<noteq> ''..'' \<or> (initial_slashes = 0 \<and> new_comps = []) \<or>
                           (new_comps \<noteq> [] \<and> last new_comps = ''..'')
                     then new_comps @ [comp]
                   else if new_comps \<noteq> [] then butlast new_comps
                   else new_comps)
                 (split_slash path) [];
             path' = replicate initial_slashes CHR ''/'' @ join_slash comps
         in if path' = [] then ''.'' else path'))"

definition getcwd :: "path \<Rightarrow> string" where
  "getcwd cwd = CHR ''/'' # join_slash cwd"

definition posix_abspath :: "path \<Rightarrow> string \<Rightarrow> string" where
  "posix_abspath cwd p =
     normpath (if p \<noteq> [] \<and> hd p = CHR ''/'' then p else posix_join (getcwd cwd) p)"

text \<open>
  \<^verbatim>\<open>shutil.copyfile(src, dst)\<close>: \<^verbatim>\<open>SameFileError\<close> when both name one file; then \<open>src\<close>
  is opened for reading and \<open>dst\<close> for writing, which truncates a regular file that is
  there and creates one in an existing directory otherwise. A failed call leaves the
  tree as it was.
\<close>

definition copyfile :: "path \<Rightarrow> string \<Rightarrow> string \<Rightarrow> 'c tree \<Rightarrow> (exn \<times> 'c tree) + 'c tree" where
  "copyfile cwd src dst t =
     (case resolve cwd t src of
        None \<Rightarrow> Inl (FileNotFoundError, t)
      | Some p \<Rightarrow>
         if resolve cwd t dst = Some p then Inl (SameFileError, t)
         else
           (case node_at t p of
              Some (File c) \<Rightarrow>
               (case resolve cwd t dst of
                  Some q \<Rightarrow>
                   (if node_at t q = Some Dir then Inl (IsADirectoryError, t)
                    else Inr (t(q \<mapsto> File c)))
                | None \<Rightarrow>
                   (if dst = [] then Inl (FileNotFoundError, t)
                    else
                      (case walk t (if hd dst = CHR ''/'' then [] else cwd)
                              (butlast (split_slash dst)) of
                         None \<Rightarrow> Inl (FileNotFoundError, t)
                       | Some d \<Rightarrow>
                          if node_at t d \<noteq> Some Dir then Inl (NotADirectoryError, t)
                          else if last (split_slash dst) \<in> {[], ''.'', ''..''}
                            then Inl (IsADirectoryError, t)
                          else Inr (t(d @ [last (split_slash dst)] \<mapsto> File c)))))
            | _ \<Rightarrow> Inl (IsADirectoryError, t)))"

text \<open>
  \<^verbatim>\<open>shutil.copy(src, dst)\<close>: into a directory \<open>dst\<close> the file is copied under the base
  name of \<open>src\<close>.
\<close>

definition posix_copy :: "path \<Rightarrow> string \<Rightarrow> string \<Rightarrow> 'c tree \<Rightarrow> (exn \<times> 'c tree) + 'c tree" where
  "posix_copy cwd src dst t =
     copyfile cwd src (if posix_isdir cwd t dst then posix_join dst (basename src) else dst) t"

text \<open>\<^verbatim>\<open>open(path)\<close> and \<^verbatim>\<open>csv.reader\<close>, with \<open>parse\<close> for the reader.\<close>

definition posix_read_csv ::
  "path \<Rightarrow> ('c \<Rightarrow> exn + string list list) \<Rightarrow> 'c tree \<Rightarrow> string \<Rightarrow> exn + string list list" where
  "posix_read_csv cwd parse t p =
     (case resolve cwd t p of
        None \<Rightarrow> Inl FileNotFoundError
      | Some q \<Rightarrow> (case node_at t q of Some (File c) \<Rightarrow> parse c | _ \<Rightarrow> Inl IsADirectoryError))"

definition posix_os :: "sys \<Rightarrow> path \<Rightarrow> ('c \<Rightarrow> exn + string list list) \<Rightarrow> 'c tree os" where
  "posix_os e cwd parse =
     \<lparr>env = e, exists = posix_exists cwd, join = posix_join, abspath = posix_abspath cwd,
      copy = posix_copy cwd, read_csv = posix_read_csv cwd parse\<rparr>"

text \<open>A platform other than \<^verbatim>\<open>win32\<close>; it has no registry.\<close>

definition linux :: sys where
  "linux = \<lparr>platform = ''linux'', OpenKey = (\<lambda>k. Some FileNotFoundError),
     QueryValueEx = (\<lambda>k v. Inl FileNotFoundError)\<rparr>"


section \<open>A small installation\<close>

text \<open>
  The working directory is the root; \<^verbatim>\<open>/list.csv\<close> holds the given rows; \<^verbatim>\<open>/src\<close> holds
  \<^verbatim>\<open>a.txt\<close>, \<^verbatim>\<open>b.txt\<close> and \<^verbatim>\<open>sub/a.txt\<close>; \<^verbatim>\<open>/tgt\<close> holds an empty directory \<^verbatim>\<open>sub\<close>.
  File contents are kept as the rows \<^verbatim>\<open>csv.reader\<close> reads from them.
\<close>

definition site :: "string list list \<Rightarrow> string list list tree" where
  "site rows =
     [[''list.csv''] \<mapsto> File rows,
      [''src''] \<mapsto> Dir,
      [''src'', ''a.txt''] \<mapsto> File [[''A'']],
      [''src'', ''b.txt''] \<mapsto> File [[''B'']],
      [''src'', ''sub''] \<mapsto> Dir,
      [''src'', ''sub'', ''a.txt''] \<mapsto> File [[''S'']],
      [''tgt''] \<mapsto> Dir,
      [''tgt'', ''sub''] \<mapsto> Dir]"

definition posix :: "string list list tree os" where
  "posix = posix_os linux [] Inr"

text \<open>\<^verbatim>\<open>copy-tool list.csv src tgt -q\<close>.\<close>

definition cmdline :: args where
  "cmdline = \<lparr>csv_file = ''list.csv'', source_dir = ''src'', target_dir = ''tgt'',
     column_name = ''filename'', quiet = True, overwrite = False, dry_run = False\<rparr>"

section \<open>Runs on the small installation\<close>

lemmas run_defs = main_def print_config_def say_def print_def init_def posix_def posix_os_def
  posix_exists_def resolve_def node_at_def site_def cmdline_def filenames_def posix_read_csv_def
  dict_row_def remove_duplicates_def fromkeys_def loop_body_def classify_def
  check_path_length_def is_long_path_available_def linux_def posix_abspath_def posix_copy_def
  copyfile_def posix_isdir_def posix_join_def basename_def report_def parser_error_def
  normpath_def getcwd_def quoted_def Let_def counters_def

text \<open>
  The first scenario of the specification: the column holds \<^verbatim>\<open>a.txt\<close>, \<^verbatim>\<open>b.txt\<close>, \<^verbatim>\<open>a.txt\<close>;
  both files are copied, nothing else is counted.
\<close>

lemma run_two_files:
  "main posix cmdline (site [[''filename''], [''a.txt''], [''b.txt''], [''a.txt'']]) =
     Inr \<lparr>fs = (site [[''filename''], [''a.txt''], [''b.txt''], [''a.txt'']])
             ([''tgt'', ''a.txt''] \<mapsto> File [[''A'']], [''tgt'', ''b.txt''] \<mapsto> File [[''B'']]),
          stdout = [], copied = 2, not_found = 0, already_exist = 0, path_error = 0\<rparr>"
  by (simp add: run_defs)

lemma final_simps [simp]: "final (Inr s) = s" "final (Inl (x, s)) = s"
  by (simp_all add: final_def)



section \<open>Deduplication keeps first appearances\<close>

lemma keys_setitem:
  "map fst (setitem k v d) = (if k \<in> set (map fst d) then map fst d else map fst d @ [k])"
  by (induction d) (auto simp: rev_image_eqI)

lemma remdups_snoc: "remdups (ys @ [x]) = filter (\<lambda>y. y \<noteq> x) (remdups ys) @ [x]"
  by (induction ys) auto

lemma first_seen_Cons: "first_seen (x # xs) = x # filter (\<lambda>y. y \<noteq> x) (first_seen xs)"
proof -
  have "remdups (rev xs @ [x]) = filter (\<lambda>y. y \<noteq> x) (remdups (rev xs)) @ [x]"
    by (rule remdups_snoc)
  then show ?thesis
    by (simp add: first_seen_def rev_filter)
qed

text \<open>
  Filling the dictionary key by key, from any dictionary \<open>d\<close>: the keys of \<open>d\<close> stay
  where they are, and the new ones follow in the order of their first appearance.
\<close>

lemma keys_fold_setitem:
  "map fst (fold (\<lambda>k d. setitem k () d) ks d) =
     map fst d @ filter (\<lambda>k. k \<notin> set (map fst d)) (first_seen ks)"
proof (induction ks arbitrary: d)
  case Nil
  show ?case by (simp add: first_seen_def)
next
  case (Cons k ks)
  show ?case
  proof (cases "k \<in> set (map fst d)")
    case True
    then have "filter (\<lambda>y. y \<notin> set (map fst d)) (filter (\<lambda>y. y \<noteq> k) (first_seen ks))
        = filter (\<lambda>y. y \<notin> set (map fst d)) (first_seen ks)"
      by (auto intro: filter_cong)
    with True show ?thesis
      by (simp add: Cons.IH keys_setitem first_seen_Cons)
  next
    case False
    have "filter (\<lambda>y. y \<notin> set (map fst d) \<and> y \<noteq> k) (first_seen ks)
        = filter (\<lambda>y. y \<noteq> k \<and> y \<notin> set (map fst d)) (first_seen ks)"
      by (auto intro: filter_cong)
    with False show ?thesis
      by (simp add: Cons.IH keys_setitem first_seen_Cons)
  qed
qed

lemma remove_duplicates_first_seen: "remove_duplicates xs = first_seen xs"
  by (simp add: remove_duplicates_def fromkeys_def keys_fold_setitem)

lemma distinct_remove_duplicates: "distinct (remove_duplicates xs)"
  by (simp add: remove_duplicates_first_seen first_seen_def)

lemma set_remove_duplicates: "set (remove_duplicates xs) = set xs"
  by (simp add: remove_duplicates_first_seen first_seen_def)

lemma length_remove_duplicates: "length (remove_duplicates xs) = card (set xs)"
  using distinct_card [OF distinct_remove_duplicates, of xs]
  by (simp add: set_remove_duplicates)





section \<open>The path-length policy\<close>

lemma long_path_elsewhere: "platform e \<noteq> ''win32'' \<Longrightarrow> is_long_path_available e = Inr True"
  by (simp add: is_long_path_available_def)



text \<open>
  What the claim leaves aside: a key that does not open, or a query that fails otherwise
  than with \<^verbatim>\<open>FileNotFoundError\<close>, ends the check with that exception, whatever the
  length of the path.
\<close>

lemma check_path_length_raises:
  "platform e = ''win32'' \<Longrightarrow> OpenKey e fs_key = Some x \<Longrightarrow> check_path_length e p = Inl x"
  "platform e = ''win32'' \<Longrightarrow> OpenKey e fs_key = None \<Longrightarrow>
   QueryValueEx e fs_key ''LongPathsEnabled'' = Inl x \<Longrightarrow> x \<noteq> FileNotFoundError \<Longrightarrow>
   check_path_length e p = Inl x"
  by (cases x; simp add: check_path_length_def is_long_path_available_def)+



section \<open>One iteration of the dispatch loop\<close>

lemma say_simps [simp]:
  "fs (say a line s) = fs s"
  "copied (say a line s) = copied s"
  "not_found (say a line s) = not_found s"
  "already_exist (say a line s) = already_exist s"
  "path_error (say a line s) = path_error s"
  by (simp_all add: say_def print_def)

lemma counters_say [simp]: "counters (say a line s) = counters s"
  by (simp add: counters_def)

text \<open>
  Every iteration that returns takes exactly one branch: one counter goes up by one
  and the other three stay.
\<close>

lemma loop_body_None [simp]: "loop_body os a None s = Inl (TypeError, s)"
  by (simp add: loop_body_def)

lemma loop_body_raises [simp]:
  "classify os a (fs s) file = Inl x \<Longrightarrow> loop_body os a (Some file) s = Inl (x, s)"
  by (simp add: loop_body_def)

lemma loop_body_AlreadyExists [simp]:
  "classify os a (fs s) file = Inr AlreadyExists \<Longrightarrow>
   loop_body os a (Some file) s =
     Inr ((say a (''Skipping '' @ quoted file) s)\<lparr>already_exist := already_exist s + 1\<rparr>)"
  by (simp add: loop_body_def)

lemma loop_body_PathError [simp]:
  "classify os a (fs s) file = Inr PathError \<Longrightarrow>
   loop_body os a (Some file) s =
     Inr ((say a (''Path length too long, skipping: '' @ quoted file) s)
            \<lparr>path_error := path_error s + 1\<rparr>)"
  by (simp add: loop_body_def)

lemma loop_body_NotFound [simp]:
  "classify os a (fs s) file = Inr NotFound \<Longrightarrow>
   loop_body os a (Some file) s =
     Inr ((say a (''File '' @ quoted file @ '' does not exist'') s)
            \<lparr>not_found := not_found s + 1\<rparr>)"
  by (simp add: loop_body_def)

lemma loop_body_Copied_dry [simp]:
  "classify os a (fs s) file = Inr Copied \<Longrightarrow> dry_run a \<Longrightarrow>
   loop_body os a (Some file) s =
     Inr ((say a (''Copying '' @ quoted file @ ''...'') s)\<lparr>copied := copied s + 1\<rparr>)"
  by (simp add: loop_body_def)

lemma loop_body_Copied [simp]:
  "classify os a (fs s) file = Inr Copied \<Longrightarrow> \<not> dry_run a \<Longrightarrow>
   loop_body os a (Some file) s =
     (case copy os (join os (source_dir a) file) (target_dir a) (fs s) of
        Inl (x, t) \<Rightarrow> Inl (x, (say a (''Copying '' @ quoted file @ ''...'') s)\<lparr>fs := t\<rparr>)
      | Inr t \<Rightarrow>
         Inr ((say a (''Copying '' @ quoted file @ ''...'') s)\<lparr>fs := t, copied := copied s + 1\<rparr>))"
  by (simp add: loop_body_def Let_def split: sum.splits prod.splits)

lemma loop_body_counters:
  assumes "loop_body os a c s = Inr s'"
  shows "counters s' = (copied s + 1, not_found s, already_exist s, path_error s) \<or>
         counters s' = (copied s, not_found s + 1, already_exist s, path_error s) \<or>
         counters s' = (copied s, not_found s, already_exist s + 1, path_error s) \<or>
         counters s' = (copied s, not_found s, already_exist s, path_error s + 1)"
proof (cases c)
  case None
  with assms show ?thesis by simp
next
  case (Some f)
  show ?thesis
  proof (cases "classify os a (fs s) f")
    case (Inl x)
    with assms Some show ?thesis by simp
  next
    case (Inr oc)
    show ?thesis
    proof (cases oc)
      case AlreadyExists
      with assms Some Inr
      have "s' = (say a (''Skipping '' @ quoted f) s)\<lparr>already_exist := already_exist s + 1\<rparr>"
        by simp
      then have "counters s' = (copied s, not_found s, already_exist s + 1, path_error s)"
        by (simp add: counters_def)
      then show ?thesis by blast
    next
      case Copied
      have "copied s' = copied s + 1 \<and> not_found s' = not_found s \<and>
            already_exist s' = already_exist s \<and> path_error s' = path_error s"
      proof (cases "dry_run a")
        case True
        with assms Some Inr Copied
        have "s' = (say a (''Copying '' @ quoted f @ ''...'') s)\<lparr>copied := copied s + 1\<rparr>"
          by simp
        then show ?thesis by simp
      next
        case False
        with assms Some Inr Copied obtain t where
          "s' = (say a (''Copying '' @ quoted f @ ''...'') s)\<lparr>fs := t, copied := copied s + 1\<rparr>"
          by (cases "copy os (join os (source_dir a) f) (target_dir a) (fs s)") auto
        then show ?thesis by simp
      qed
      then have "counters s' = (copied s + 1, not_found s, already_exist s, path_error s)"
        by (simp add: counters_def)
      then show ?thesis by blast
    next
      case PathError
      with assms Some Inr
      have "s' = (say a (''Path length too long, skipping: '' @ quoted f) s)
                   \<lparr>path_error := path_error s + 1\<rparr>"
        by simp
      then have "counters s' = (copied s, not_found s, already_exist s, path_error s + 1)"
        by (simp add: counters_def)
      then show ?thesis by blast
    next
      case NotFound
      with assms Some Inr
      have "s' = (say a (''File '' @ quoted f @ '' does not exist'') s)
                   \<lparr>not_found := not_found s + 1\<rparr>"
        by simp
      then have "counters s' = (copied s, not_found s + 1, already_exist s, path_error s)"
        by (simp add: counters_def)
      then show ?thesis by blast
    qed
  qed
qed

lemma loop_body_total:
  assumes "loop_body os a c s = Inr s'"
  shows "total s' = total s + 1"
  using loop_body_counters [OF assms] by (auto simp: total_def counters_def)

lemma dispatch_total:
  "dispatch os a files s = Inr s' \<Longrightarrow> total s' = total s + int (length files)"
proof (induction files arbitrary: s)
  case Nil
  then show ?case by simp
next
  case (Cons c files)
  from Cons.prems obtain s1 where
    step: "loop_body os a c s = Inr s1" and rest: "dispatch os a files s1 = Inr s'"
    by (auto split: sum.splits)
  from Cons.IH [OF rest] loop_body_total [OF step] show ?case by simp
qed

lemma total_print_config [simp]: "total (print_config a s) = total s"
  by (simp add: print_config_def total_def)

lemma total_report [simp]: "total (report a s) = total s"
  by (simp add: report_def total_def Let_def)

lemma total_init [simp]: "total (init t) = 0"
  by (simp add: total_def init_def)

text \<open>
  Claim C1. A run that gets through the dispatch loop and ends normally has read the
  CSV file and found the column, and its four counters add up to the number of
  distinct values of the column; each iteration of the loop raises exactly one of the
  four counters by one.
\<close>

theorem counters_add_up:
  assumes "main os a t = Inr s"
  shows "(\<exists>rows files.
            read_csv os t (csv_file a) = Inr rows \<and>
            column (column_name a) (DictReader rows) = Some files \<and>
            copied s + not_found s + already_exist s + path_error s = int (card (set files))) \<and>
         (\<forall>c s1 s2. loop_body os a c s1 = Inr s2 \<longrightarrow>
            counters s2 = (copied s1 + 1, not_found s1, already_exist s1, path_error s1) \<or>
            counters s2 = (copied s1, not_found s1 + 1, already_exist s1, path_error s1) \<or>
            counters s2 = (copied s1, not_found s1, already_exist s1 + 1, path_error s1) \<or>
            counters s2 = (copied s1, not_found s1, already_exist s1, path_error s1 + 1))"
proof
  from assms obtain files' s' where
    ex: "filenames os a t = Inr files'" and
    loop: "dispatch os a files' (print_config a (init t)) = Inr s'" and
    s: "s = report a s'"
    by (auto simp: main_def Let_def split: option.splits sum.splits)
  from ex obtain rows files where
    rows: "read_csv os t (csv_file a) = Inr rows" and
    col: "column (column_name a) (DictReader rows) = Some files" and
    files': "files' = remove_duplicates files"
    by (auto simp: filenames_def split: sum.splits option.splits)
  have "total s = int (length files')"
    using dispatch_total [OF loop] s by simp
  then have "copied s + not_found s + already_exist s + path_error s = int (card (set files))"
    by (simp add: total_def files' length_remove_duplicates)
  with rows col show "\<exists>rows files.
            read_csv os t (csv_file a) = Inr rows \<and>
            column (column_name a) (DictReader rows) = Some files \<and>
            copied s + not_found s + already_exist s + path_error s = int (card (set files))"
    by blast
next
  show "\<forall>c s1 s2. loop_body os a c s1 = Inr s2 \<longrightarrow>
            counters s2 = (copied s1 + 1, not_found s1, already_exist s1, path_error s1) \<or>
            counters s2 = (copied s1, not_found s1 + 1, already_exist s1, path_error s1) \<or>
            counters s2 = (copied s1, not_found s1, already_exist s1 + 1, path_error s1) \<or>
            counters s2 = (copied s1, not_found s1, already_exist s1, path_error s1 + 1)"
    using loop_body_counters by blast
qed

theorem counters_add_up_witness:
  "main posix cmdline (site [[''filename''], [''a.txt''], [''b.txt''], [''a.txt'']]) =
     Inr \<lparr>fs = (site [[''filename''], [''a.txt''], [''b.txt''], [''a.txt'']])
             ([''tgt'', ''a.txt''] \<mapsto> File [[''A'']], [''tgt'', ''b.txt''] \<mapsto> File [[''B'']]),
          stdout = [], copied = 2, not_found = 0, already_exist = 0, path_error = 0\<rparr> \<and>
   column ''filename'' (DictReader [[''filename''], [''a.txt''], [''b.txt''], [''a.txt'']]) =
     Some [Some ''a.txt'', Some ''b.txt'', Some ''a.txt''] \<and>
   (2::int) + 0 + 0 + 0 = int (card (set [Some ''a.txt'', Some ''b.txt'', Some ''a.txt'']))"
  using counters_add_up [OF run_two_files] run_two_files
  by (simp add: dict_row_def card_insert_if)

section \<open>The overwrite flag\<close>

text \<open>
  Claim C6. With the overwrite flag off, a filename that exists in the target directory
  is classified already-exists, whatever holds of the source file and of the length of
  the destination path: the iteration raises \<open>already_exist\<close> alone and leaves the file
  system as it is.
\<close>

theorem existing_target_is_skipped:
  assumes "\<not> overwrite a" and "exists os (fs s) (join os (target_dir a) file)"
  shows "classify os a (fs s) file = Inr AlreadyExists \<and>
         (\<exists>s'. loop_body os a (Some file) s = Inr s' \<and>
            counters s' = (copied s, not_found s, already_exist s + 1, path_error s) \<and>
            fs s' = fs s)"
proof -
  from assms have c: "classify os a (fs s) file = Inr AlreadyExists"
    by (simp add: classify_def)
  then show ?thesis
    by (simp add: loop_body_def counters_def)
qed

theorem existing_target_is_skipped_witness:
  "\<not> overwrite cmdline \<and>
   exists posix ((site [])([''tgt'', ''z.txt''] \<mapsto> File [[''old'']]))
     (join posix (target_dir cmdline) ''z.txt'') \<and>
   \<not> exists posix ((site [])([''tgt'', ''z.txt''] \<mapsto> File [[''old'']]))
     (join posix (source_dir cmdline) ''z.txt'') \<and>
   classify posix cmdline ((site [])([''tgt'', ''z.txt''] \<mapsto> File [[''old'']])) ''z.txt'' =
     Inr AlreadyExists"
proof -
  let ?t = "(site [])([''tgt'', ''z.txt''] \<mapsto> File [[''old'']])"
  have o: "\<not> overwrite cmdline"
    by (simp add: cmdline_def)
  have e: "exists posix (fs (init ?t)) (join posix (target_dir cmdline) ''z.txt'')"
    by (simp add: run_defs)
  have n: "\<not> exists posix ?t (join posix (source_dir cmdline) ''z.txt'')"
    by (simp add: run_defs)
  from existing_target_is_skipped [OF o e] o e n show ?thesis
    by (simp add: init_def)
qed

text \<open>
  Claim C7. With the overwrite flag on, no filename is classified already-exists. The
  classification is: not-found when the source file does not exist; otherwise what the
  path-length check on the destination path gives, copied when it passes, path-error
  when it fails, its exception when it raises. It does not change when the existence
  test is replaced by any other that agrees on the source file, so nothing in the target
  directory bears on it.
\<close>

theorem overwrite_never_skips:
  assumes "overwrite a"
  shows "classify os a t file \<noteq> Inr AlreadyExists \<and>
         classify os a t file =
           (if exists os t (join os (source_dir a) file)
            then (case check_path_length (env os) (abspath os (join os (target_dir a) file)) of
                    Inl x \<Rightarrow> Inl x
                  | Inr ok \<Rightarrow> Inr (if ok then Copied else PathError))
            else Inr NotFound) \<and>
         (\<forall>ex. ex t (join os (source_dir a) file) = exists os t (join os (source_dir a) file) \<longrightarrow>
            classify (os\<lparr>exists := ex\<rparr>) a t file = classify os a t file)"
  using assms by (auto simp: classify_def split: sum.splits)

theorem overwrite_never_skips_witness:
  "overwrite (cmdline\<lparr>overwrite := True\<rparr>) \<and>
   exists posix ((site [])([''tgt'', ''a.txt''] \<mapsto> File [[''old'']]))
     (join posix (target_dir cmdline) ''a.txt'') \<and>
   classify posix (cmdline\<lparr>overwrite := True\<rparr>)
     ((site [])([''tgt'', ''a.txt''] \<mapsto> File [[''old'']])) ''a.txt'' = Inr Copied"
proof -
  let ?t = "(site [])([''tgt'', ''a.txt''] \<mapsto> File [[''old'']])"
  have o: "overwrite (cmdline\<lparr>overwrite := True\<rparr>)"
    by simp
  have e: "exists posix ?t (join posix (target_dir cmdline) ''a.txt'')"
    by (simp add: run_defs)
  have s: "exists posix ?t (join posix (source_dir (cmdline\<lparr>overwrite := True\<rparr>)) ''a.txt'')"
    by (simp add: run_defs)
  have p: "check_path_length (env posix) p = Inr True" for p
    by (simp add: run_defs)
  from overwrite_never_skips [OF o, of posix ?t "''a.txt''"] s p e show ?thesis
    by simp
qed

section \<open>The quiet flag\<close>

lemma say_mute [simp]: "(say a line s)\<lparr>stdout := []\<rparr> = s\<lparr>stdout := []\<rparr>"
  by (simp add: say_def print_def)



lemma print_config_mute [simp]: "(print_config a s)\<lparr>stdout := []\<rparr> = s\<lparr>stdout := []\<rparr>"
  by (simp add: print_config_def)

lemma report_mute [simp]: "(report a s)\<lparr>stdout := []\<rparr> = s\<lparr>stdout := []\<rparr>"
  by (simp add: report_def Let_def)

lemma filenames_quiet [simp]: "filenames os (a\<lparr>quiet := q\<rparr>) t = filenames os a t"
  by (simp add: filenames_def cong: sum.case_cong option.case_cong)








section \<open>Paths on the POSIX file system\<close>

lemma split_slash_not_Nil [simp]: "split_slash p \<noteq> []"
  by (induction p) auto

lemma split_slash_append:
  "split_slash (x @ CHR ''/'' # y) = split_slash x @ split_slash y"
  by (induction x) auto

lemma split_slash_plain: "CHR ''/'' \<notin> set f \<Longrightarrow> split_slash f = [f]"
  by (induction f) auto

text \<open>Resolution goes component by component.\<close>

lemma walk_append:
  "walk t cur (cs @ ds) = (case walk t cur cs of None \<Rightarrow> None | Some q \<Rightarrow> walk t q ds)"
proof (induction cs arbitrary: cur)
  case Nil
  show ?case by (cases ds) auto
next
  case (Cons c cs)
  then show ?case by simp
qed

lemma walk_exists: "walk t cur cs = Some q \<Longrightarrow> node_at t q \<noteq> None"
  by (induction cs arbitrary: cur) (auto split: if_splits)

lemma resolve_exists: "resolve cwd t p = Some q \<Longrightarrow> node_at t q \<noteq> None"
  by (auto simp: resolve_def dest: walk_exists split: if_splits)

text \<open>
  \<^verbatim>\<open>join(d, "")\<close> is \<open>d\<close> with a slash at its end; for a directory \<open>d\<close> it names \<open>d\<close>
  itself, and its base name is empty.
\<close>

lemma posix_join_empty:
  "posix_join d [] = (if d = [] \<or> last d = CHR ''/'' then d else d @ ''/'')"
  by (simp add: posix_join_def)

lemma resolve_trailing_slash:
  assumes "resolve cwd t d = Some q" and "node_at t q = Some Dir"
  shows "resolve cwd t (d @ ''/'') = Some q"
proof -
  from assms(1) have d: "d \<noteq> []"
    by (auto simp: resolve_def)
  have "split_slash (d @ ''/'') = split_slash d @ [[]]"
    using split_slash_append [of d "[]"] by simp
  with assms d show ?thesis
    by (simp add: resolve_def walk_append)
qed

lemma resolve_join_empty:
  assumes "resolve cwd t d = Some q" and "node_at t q = Some Dir"
  shows "resolve cwd t (posix_join d []) = Some q"
  using assms resolve_trailing_slash [OF assms] by (simp add: posix_join_empty)

lemma basename_trailing_slash: "d \<noteq> [] \<Longrightarrow> last d = CHR ''/'' \<Longrightarrow> basename d = []"
  by (cases d rule: rev_cases) (auto simp: basename_def)

lemma basename_join_empty: "d \<noteq> [] \<Longrightarrow> basename (posix_join d []) = []"
  by (auto simp: posix_join_empty basename_trailing_slash)

section \<open>An empty cell\<close>

lemma fold_update_other:
  "name \<notin> fst ` set kvs \<Longrightarrow> fold (\<lambda>(key, v) d. d(key \<mapsto> Some v)) kvs d name = d name"
  by (induction kvs arbitrary: d) auto

lemma fold_restval_other:
  "name \<notin> set ks \<Longrightarrow> fold (\<lambda>key d. d(key \<mapsto> None)) ks d name = d name"
  by (induction ks arbitrary: d) auto

lemma fold_update_nth:
  assumes "distinct (map fst kvs)" and "i < length kvs"
  shows "fold (\<lambda>(key, v) d. d(key \<mapsto> Some v)) kvs d (fst (kvs ! i)) = Some (Some (snd (kvs ! i)))"
  using assms
proof (induction kvs arbitrary: d i)
  case Nil
  then show ?case by simp
next
  case (Cons kv kvs)
  obtain k v where kv: "kv = (k, v)" by (cases kv)
  show ?case
  proof (cases i)
    case 0
    from Cons.prems(1) kv have "k \<notin> fst ` set kvs" by auto
    from fold_update_other [OF this, of "d(k \<mapsto> Some v)"] show ?thesis
      by (simp only: 0 kv fold_simps comp_apply case_prod_conv nth_Cons_0 fst_conv snd_conv
          fun_upd_same)
  next
    case (Suc j)
    with Cons.prems Cons.IH [of j] show ?thesis by simp
  qed
qed

text \<open>A cell under a column that the header names once is read as it stands.\<close>

lemma dict_row_cell:
  assumes "distinct fieldnames" and "i < length fieldnames" and "i < length row"
  shows "dict_row fieldnames row (fieldnames ! i) = Some (Some (row ! i))"
proof -
  let ?kvs = "zip fieldnames row"
  have i: "i < length ?kvs" using assms by simp
  have "distinct (map fst ?kvs)"
    using assms(1) by (simp add: map_fst_zip_take distinct_take)
  from fold_update_nth [OF this i]
  have "fold (\<lambda>(key, v) d. d(key \<mapsto> Some v)) ?kvs Map.empty (fieldnames ! i) = Some (Some (row ! i))"
    using assms by simp
  moreover have "fieldnames ! i \<notin> set (drop (length row) fieldnames)"
  proof
    assume "fieldnames ! i \<in> set (drop (length row) fieldnames)"
    then obtain j where j: "j < length fieldnames - length row"
      and eq: "drop (length row) fieldnames ! j = fieldnames ! i"
      by (auto simp: in_set_conv_nth)
    then have "fieldnames ! (length row + j) = fieldnames ! i" by simp
    with assms j have "length row + j = i"
      by (simp add: nth_eq_iff_index_eq)
    with assms(3) show False by simp
  qed
  ultimately show ?thesis
    by (simp add: dict_row_def fold_restval_other)
qed

lemma check_path_length_elsewhere:
  "platform e \<noteq> ''win32'' \<Longrightarrow> check_path_length e p = Inr True"
  by (simp add: check_path_length_def long_path_elsewhere)

lemma classify_empty:
  assumes "posix_isdir cwd t (source_dir a)" and "posix_isdir cwd t (target_dir a)"
    and "platform e \<noteq> ''win32''"
  shows "classify (posix_os e cwd parse) a t [] = Inr (if overwrite a then Copied else AlreadyExists)"
proof -
  from assms(1) have "posix_exists cwd t (posix_join (source_dir a) [])"
    by (auto simp: posix_isdir_def posix_exists_def resolve_join_empty split: option.splits)
  moreover from assms(2) have "posix_exists cwd t (posix_join (target_dir a) [])"
    by (auto simp: posix_isdir_def posix_exists_def resolve_join_empty split: option.splits)
  ultimately show ?thesis
    using assms(3) by (simp add: classify_def posix_os_def check_path_length_elsewhere)
qed

text \<open>Copying the source directory itself fails.\<close>

lemma copy_empty_raises:
  assumes "posix_isdir cwd t sdir" and "posix_isdir cwd t tdir"
  shows "posix_copy cwd (posix_join sdir []) tdir t = Inl (IsADirectoryError, t) \<or>
         posix_copy cwd (posix_join sdir []) tdir t = Inl (SameFileError, t)"
proof -
  from assms(1) obtain p where p: "resolve cwd t sdir = Some p" "node_at t p = Some Dir"
    by (auto simp: posix_isdir_def split: option.splits)
  then have s: "sdir \<noteq> []" by (auto simp: resolve_def)
  from p have "resolve cwd t (posix_join sdir []) = Some p"
    by (rule resolve_join_empty)
  with p(2) assms(2) s show ?thesis
    by (simp add: posix_copy_def copyfile_def basename_join_empty)
qed

section \<open>What a copy changes\<close>

text \<open>Resolution looks at the kind of a node only, not at the content of a file.\<close>

lemma walk_kinds_cong:
  assumes "\<And>p. (node_at t' p = None) = (node_at t p = None)"
    and "\<And>p. (node_at t' p = Some Dir) = (node_at t p = Some Dir)"
  shows "walk t' cur cs = walk t cur cs"
  by (induction cs arbitrary: cur) (simp_all add: assms)

lemma walk_overwrite:
  assumes "node_at t q = Some (File c0)"
  shows "walk (t(q \<mapsto> File c)) cur cs = walk t cur cs"
proof (rule walk_kinds_cong)
  fix p
  from assms show "(node_at (t(q \<mapsto> File c)) p = None) = (node_at t p = None)"
    by (auto simp: node_at_def)
  from assms show "(node_at (t(q \<mapsto> File c)) p = Some Dir) = (node_at t p = Some Dir)"
    by (auto simp: node_at_def)
qed

text \<open>
  A file created at \<open>w\<close> is found by the paths that lead to \<open>w\<close>; every other path
  resolves as before.
\<close>

lemma node_at_create:
  "w \<noteq> [] \<Longrightarrow> node_at (t(w \<mapsto> File c)) p = (if p = w then Some (File c) else node_at t p)"
  by (simp add: node_at_def)

lemma node_at_absent: "w \<noteq> [] \<Longrightarrow> t w = None \<Longrightarrow> node_at t w = None"
  by (simp add: node_at_def)

lemma walk_create_mono:
  assumes new: "\<And>p. node_at t' p = (if p = w then Some (File c) else node_at t p)"
    and absent: "node_at t w = None"
  shows "walk t cur cs = Some r \<Longrightarrow> walk t' cur cs = Some r"
proof (induction cs arbitrary: cur)
  case Nil
  then have "node_at t cur \<noteq> None" and "r = cur"
    by (simp_all split: if_splits)
  with absent have "node_at t' cur \<noteq> None"
    by (auto simp: new)
  with \<open>r = cur\<close> show ?case by simp
next
  case (Cons a cs)
  from Cons.prems have dir: "node_at t cur = Some Dir"
    by (simp split: if_splits)
  with absent have "cur \<noteq> w" by auto
  with dir have dir': "node_at t' cur = Some Dir"
    by (simp add: new)
  show ?case
  proof (cases "a = [] \<or> a = ''.''")
    case True
    with Cons.prems dir have "walk t cur cs = Some r" by auto
    from Cons.IH [OF this] True dir' show ?thesis by auto
  next
    case False
    note plainish = this
    show ?thesis
    proof (cases "a = ''..''")
      case True
      with Cons.prems dir have "walk t (butlast cur) cs = Some r" by simp
      from Cons.IH [OF this] True dir' show ?thesis by simp
    next
      case False
      with plainish Cons.prems dir have child: "node_at t (cur @ [a]) \<noteq> None"
        and rest: "walk t (cur @ [a]) cs = Some r"
        by (auto split: if_splits)
      from child absent have "cur @ [a] \<noteq> w" by auto
      with child have "node_at t' (cur @ [a]) \<noteq> None"
        by (simp add: new)
      with False plainish dir' Cons.IH [OF rest] show ?thesis by simp
    qed
  qed
qed



lemma split_join_plain:
  assumes "plain g"
  shows "\<exists>cs. split_slash (posix_join x g) = cs @ [g]"
proof -
  from assms have g: "split_slash g = [g]" and hd: "g \<noteq> []" "hd g \<noteq> CHR ''/''"
    by (auto simp: plain_def split_slash_plain) (cases g, auto)
  show ?thesis
  proof (cases "x = []")
    case True
    with g hd show ?thesis by (simp add: posix_join_def)
  next
    case False
    show ?thesis
    proof (cases "last x = CHR ''/''")
      case True
      with False obtain y where "x = y @ ''/''"
        by (cases x rule: rev_cases) auto
      with g hd split_slash_append [of y g] show ?thesis
        by (simp add: posix_join_def)
    next
      case False
      with \<open>x \<noteq> []\<close> g hd split_slash_append [of x g] show ?thesis
        by (simp add: posix_join_def)
    qed
  qed
qed

lemma posix_join_plain_not_Nil: "plain g \<Longrightarrow> posix_join x g \<noteq> []"
  by (auto simp: posix_join_def plain_def)

lemma takeWhile_no_slash:
  assumes "CHR ''/'' \<notin> set f"
  shows "takeWhile (\<lambda>c. c \<noteq> CHR ''/'') (rev f) = rev f"
proof -
  from assms have "\<forall>c \<in> set (rev f). c \<noteq> CHR ''/''" by auto
  then show ?thesis by (simp only: takeWhile_eq_all_conv)
qed

lemma basename_after_slash:
  "CHR ''/'' \<notin> set f \<Longrightarrow> basename (y @ CHR ''/'' # f) = f"
  by (simp add: basename_def takeWhile_tail takeWhile_no_slash)

lemma basename_plain: "CHR ''/'' \<notin> set f \<Longrightarrow> basename f = f"
  by (simp add: basename_def takeWhile_no_slash)

lemma basename_join_plain:
  assumes "plain f"
  shows "basename (posix_join x f) = f"
proof -
  from assms have f: "CHR ''/'' \<notin> set f" "f \<noteq> []" "hd f \<noteq> CHR ''/''"
    by (auto simp: plain_def) (cases f, auto)
  show ?thesis
  proof (cases "x = []")
    case True
    with f show ?thesis by (simp add: posix_join_def basename_plain)
  next
    case False
    show ?thesis
    proof (cases "last x = CHR ''/''")
      case True
      with False obtain y where "x = y @ ''/''"
        by (cases x rule: rev_cases) auto
      with f basename_after_slash [of f y] show ?thesis
        by (simp add: posix_join_def)
    next
      case False
      with \<open>x \<noteq> []\<close> f basename_after_slash [of f x] show ?thesis
        by (simp add: posix_join_def)
    qed
  qed
qed





section \<open>Dry runs\<close>

lemma classify_dry_run [simp]: "classify os (a\<lparr>dry_run := b\<rparr>) t file = classify os a t file"
  by (simp add: classify_def cong: if_cong sum.case_cong)

lemma classify_copy [simp]: "classify (os\<lparr>copy := k\<rparr>) a t file = classify os a t file"
  by (simp add: classify_def cong: if_cong sum.case_cong)

lemma filenames_dry_run [simp]: "filenames os (a\<lparr>dry_run := b\<rparr>) t = filenames os a t"
  by (simp add: filenames_def cong: sum.case_cong option.case_cong)

lemma filenames_copy [simp]: "filenames (os\<lparr>copy := k\<rparr>) a t = filenames os a t"
  by (simp add: filenames_def cong: sum.case_cong option.case_cong)

lemma validate_copy [simp]: "validate (os\<lparr>copy := k\<rparr>) t files = validate os t files"
  by (induction files) simp_all




lemma fs_print_config [simp]: "fs (print_config a s) = fs s"
  by (simp add: print_config_def)

lemma fs_report [simp]: "fs (report a s) = fs s"
  by (simp add: report_def Let_def)

lemma counters_report [simp]: "counters (report a s) = counters s"
  by (simp add: report_def Let_def counters_def)






lemma counters_print_config [simp]: "counters (print_config a s) = counters s"
  by (simp add: print_config_def)






section \<open>The empty file name\<close>

text \<open>
  Claim C4, as amended. A cell that is the empty string, under a column that the header
  names once, is kept as the literal file name \<open>''''\<close>; extraction raises nothing. On
  the POSIX file system \<^verbatim>\<open>join(dir, "")\<close> names \<open>dir\<close> itself, so where the source and
  the target are directories the loop classifies the empty name as already-exists with
  the overwrite flag off and as copied with the flag on (the path-length check passing,
  as it does off \<^verbatim>\<open>win32\<close>), never as not-found; with the flag on, a run that is not dry
  then ends in the exception that copying a directory raises.
\<close>

theorem empty_cell_names_the_directory:
  assumes "distinct fieldnames" and "i < length fieldnames" and "i < length row"
    and "row ! i = []"
    and "posix_isdir cwd t (source_dir a)" and "posix_isdir cwd t (target_dir a)"
    and "platform e \<noteq> ''win32''"
  shows "dict_row fieldnames row (fieldnames ! i) = Some (Some []) \<and>
         classify (posix_os e cwd parse) a t [] =
           Inr (if overwrite a then Copied else AlreadyExists) \<and>
         (overwrite a \<and> \<not> dry_run a \<longrightarrow>
            isl (loop_body (posix_os e cwd parse) a (Some []) (init t)))"
proof (intro conjI impI)
  from dict_row_cell [OF assms(1-3)] assms(4)
  show "dict_row fieldnames row (fieldnames ! i) = Some (Some [])"
    by simp
  show c: "classify (posix_os e cwd parse) a t [] =
      Inr (if overwrite a then Copied else AlreadyExists)"
    using assms(5-7) by (rule classify_empty)
  assume wet: "overwrite a \<and> \<not> dry_run a"
  with c have "classify (posix_os e cwd parse) a (fs (init t)) [] = Inr Copied"
    by (simp add: init_def)
  moreover from copy_empty_raises [OF assms(5,6)]
  have "isl (posix_copy cwd (posix_join (source_dir a) []) (target_dir a) t)"
    by auto
  ultimately show "isl (loop_body (posix_os e cwd parse) a (Some []) (init t))"
    using wet by (auto simp: posix_os_def init_def split: sum.splits)
qed

lemma site_dirs:
  "posix_isdir [] (site rows) (source_dir cmdline)"
  "posix_isdir [] (site rows) (target_dir cmdline)"
  by (simp_all add: posix_isdir_def resolve_def node_at_def site_def cmdline_def)

theorem empty_cell_names_the_directory_witness:
  "dict_row [''filename'', ''n''] ['''', ''1''] ''filename'' = Some (Some []) \<and>
   posix_isdir [] (site [[''filename'', ''n''], ['''', ''1'']]) ''src'' \<and>
   posix_isdir [] (site [[''filename'', ''n''], ['''', ''1'']]) ''tgt'' \<and>
   classify posix cmdline (site [[''filename'', ''n''], ['''', ''1'']]) [] = Inr AlreadyExists \<and>
   classify posix (cmdline\<lparr>overwrite := True\<rparr>) (site [[''filename'', ''n''], ['''', ''1'']]) [] =
     Inr Copied \<and>
   isl (loop_body posix (cmdline\<lparr>overwrite := True\<rparr>) (Some [])
     (init (site [[''filename'', ''n''], ['''', ''1'']])))"
proof -
  let ?u = "site [[''filename'', ''n''], ['''', ''1'']]"
  have h: "distinct [''filename'', ''n'']" "0 < length [''filename'', ''n'']"
    "0 < length ['''', ''1'']" "['''', ''1''] ! 0 = []" "platform linux \<noteq> ''win32''"
    by (simp_all add: linux_def)
  have d: "posix_isdir [] ?u (source_dir cmdline)" "posix_isdir [] ?u (target_dir cmdline)"
    "posix_isdir [] ?u (source_dir (cmdline\<lparr>overwrite := True\<rparr>))"
    "posix_isdir [] ?u (target_dir (cmdline\<lparr>overwrite := True\<rparr>))"
    using site_dirs [of "[[''filename'', ''n''], ['''', ''1'']]"] by simp_all
  from empty_cell_names_the_directory [OF h(1-4) d(1,2) h(5), of Inr]
    empty_cell_names_the_directory [OF h(1-4) d(3,4) h(5), of Inr] d(1,2)
  show ?thesis
    by (simp add: posix_def cmdline_def)
qed

text \<open>
  Claim C4 as it stands fails: the one row of the file has an empty cell under
  \<^verbatim>\<open>filename\<close>, and the run counts it under already-exists, not under not-found.
\<close>

theorem empty_cell_counterexample:
  "main posix cmdline (site [[''filename'', ''n''], ['''', ''1'']]) =
     Inr \<lparr>fs = site [[''filename'', ''n''], ['''', ''1'']],
          stdout = [], copied = 0, not_found = 0, already_exist = 1, path_error = 0\<rparr>"
  by (simp add: run_defs)

section \<open>A header without the column\<close>

lemma dict_row_absent:
  assumes "name \<notin> set fieldnames"
  shows "dict_row fieldnames row name = None"
proof -
  from assms have "name \<notin> fst ` set (zip fieldnames row)"
    by (auto dest: set_zip_leftD)
  moreover from assms have "name \<notin> set (drop (length row) fieldnames)"
    by (auto dest: in_set_dropD)
  ultimately show ?thesis
    by (simp add: dict_row_def fold_restval_other fold_update_other)
qed

lemma column_absent:
  assumes "\<forall>d \<in> set ds. d name = None"
  shows "column name ds = (if ds = [] then Some [] else None)"
  using assms by (cases ds) simp_all

text \<open>
  The missing column is noticed when the first row is read under it: a file with a row
  that is not empty ends in the usage error, before any file is looked at, and a file
  without one ends normally, having counted nothing.
\<close>

lemma missing_column:
  assumes "validate os t [csv_file a, source_dir a, target_dir a] = None"
    and "read_csv os t (csv_file a) = Inr (fieldnames # rows)"
    and "column_name a \<notin> set fieldnames"
  shows "main os a t =
     (if \<exists>row \<in> set rows. row \<noteq> []
      then Inl (parser_error (''Column '' @ quoted (column_name a) @ '' does not exist''),
                print_config a (init t))
      else Inr (report a (print_config a (init t))))"
proof -
  let ?ds = "DictReader (fieldnames # rows)"
  have "\<forall>d \<in> set ?ds. d (column_name a) = None"
    using assms(3) by (auto simp: dict_row_absent)
  from column_absent [OF this]
  have "column (column_name a) ?ds = (if \<exists>row \<in> set rows. row \<noteq> [] then None else Some [])"
    by (auto simp: filter_empty_conv)
  with assms(2) have "filenames os a t =
      (if \<exists>row \<in> set rows. row \<noteq> []
       then Inl (parser_error (''Column '' @ quoted (column_name a) @ '' does not exist''))
       else Inr [])"
    by (simp add: filenames_def remove_duplicates_def fromkeys_def)
  with assms(1) show ?thesis
    by (simp add: main_def Let_def)
qed

text \<open>
  Claim C3: a CSV file whose header row lacks the configured column ends the run in a
  usage error before any file is looked at. It fails on the code where the file has no
  row after the header: the header is \<^verbatim>\<open>name\<close>, the configured column is \<^verbatim>\<open>filename\<close>,
  and the run ends normally (exit status 0) with all counters zero.
\<close>

theorem missing_column_without_rows:
  "column_name cmdline \<notin> set [''name''] \<and>
   main posix cmdline (site [[''name'']]) =
     Inr \<lparr>fs = site [[''name'']],
          stdout = [], copied = 0, not_found = 0, already_exist = 0, path_error = 0\<rparr>"
  by (simp add: run_defs)

section \<open>Where a copy lands\<close>

text \<open>
  Claim C9: a file classified copied in a run that is not dry is read from
  \<^verbatim>\<open>source_dir/file\<close> and written to \<^verbatim>\<open>target_dir/file\<close>, the name of the column unchanged.
  It fails on the code for a name with a separator: \<^verbatim>\<open>shutil.copy\<close> is given the target
  directory, not the path \<^verbatim>\<open>join(target_dir, file)\<close> that lines 82 and 88 test, so it
  writes under the base name. For \<^verbatim>\<open>sub/a.txt\<close> the content of \<^verbatim>\<open>src/sub/a.txt\<close> lands in
  \<^verbatim>\<open>tgt/a.txt\<close>; \<^verbatim>\<open>tgt/sub/a.txt\<close> does not exist after the run, although \<^verbatim>\<open>tgt/sub\<close>
  is there.
\<close>

theorem nested_name_is_flattened:
  "main posix cmdline (site [[''filename''], [''sub/a.txt'']]) =
     Inr \<lparr>fs = (site [[''filename''], [''sub/a.txt'']])([''tgt'', ''a.txt''] \<mapsto> File [[''S'']]),
          stdout = [], copied = 1, not_found = 0, already_exist = 0, path_error = 0\<rparr> \<and>
   posix_join (source_dir cmdline) ''sub/a.txt'' = ''src/sub/a.txt'' \<and>
   posix_join (target_dir cmdline) ''sub/a.txt'' = ''tgt/sub/a.txt'' \<and>
   posix_isdir [] (site [[''filename''], [''sub/a.txt'']]) ''tgt/sub'' \<and>
   \<not> posix_exists []
      ((site [[''filename''], [''sub/a.txt'']])([''tgt'', ''a.txt''] \<mapsto> File [[''S'']]))
      ''tgt/sub/a.txt'' \<and>
   \<not> posix_exists [] (site [[''filename''], [''sub/a.txt'']]) ''tgt/a.txt'' \<and>
   posix_exists []
      ((site [[''filename''], [''sub/a.txt'']])([''tgt'', ''a.txt''] \<mapsto> File [[''S'']]))
      ''tgt/a.txt''"
  by (simp add: run_defs)

text \<open>
  For a file name proper the copy does land on \<^verbatim>\<open>join(target_dir, file)\<close>: a copy that
  returns leaves the content of the source file there.
\<close>

lemma plain_name_lands:
  assumes copy: "posix_copy cwd (posix_join sdir f) tdir t = Inr t'"
    and f: "plain f" and tdir: "posix_isdir cwd t tdir"
  shows "\<exists>p q c. resolve cwd t (posix_join sdir f) = Some p \<and> node_at t p = Some (File c) \<and>
           resolve cwd t' (posix_join tdir f) = Some q \<and> node_at t' q = Some (File c)"
proof -
  let ?src = "posix_join sdir f" and ?dst = "posix_join tdir f"
  let ?start = "if hd ?dst = CHR ''/'' then [] else cwd"
  from copy tdir have cf: "copyfile cwd ?src ?dst t = Inr t'"
    by (simp add: posix_copy_def basename_join_plain [OF f])
  then obtain p where p: "resolve cwd t ?src = Some p"
    by (cases "resolve cwd t ?src") (auto simp: copyfile_def)
  with cf have ne: "resolve cwd t ?dst \<noteq> Some p"
    by (auto simp: copyfile_def)
  with cf p obtain c where c: "node_at t p = Some (File c)"
    by (cases "node_at t p"; cases "the (node_at t p)") (auto simp: copyfile_def)
  from split_join_plain [OF f] obtain cs where cs: "split_slash ?dst = cs @ [f]"
    by blast
  have dst: "?dst \<noteq> []"
    by (rule posix_join_plain_not_Nil [OF f])
  show ?thesis
  proof (cases "resolve cwd t ?dst")
    case (Some q)
    with cf p ne c have t': "t' = t(q \<mapsto> File c)" and nd: "node_at t q \<noteq> Some Dir"
      by (auto simp: copyfile_def split: if_splits)
    from resolve_exists [OF Some] nd obtain c0 where c0: "node_at t q = Some (File c0)"
      by (cases "node_at t q"; cases "the (node_at t q)") auto
    then have q: "q \<noteq> []" by (auto simp: node_at_def)
    from Some dst have "walk t ?start (split_slash ?dst) = Some q"
      by (simp add: resolve_def)
    with t' have "walk t' ?start (split_slash ?dst) = Some q"
      by (simp only: walk_overwrite [OF c0])
    with dst have "resolve cwd t' ?dst = Some q"
      by (simp add: resolve_def)
    moreover from q t' have "node_at t' q = Some (File c)"
      by (simp add: node_at_def)
    ultimately show ?thesis using p c by blast
  next
    case None
    with cf p ne c dst cs obtain d where
      d: "walk t ?start cs = Some d" and dir: "node_at t d = Some Dir"
      and t': "t' = t(d @ [f] \<mapsto> File c)"
      by (auto simp: copyfile_def split: if_splits option.splits)
    from None dst cs d have "walk t d [f] = None"
      by (simp add: resolve_def walk_append)
    with dir f have absent: "node_at t (d @ [f]) = None"
      by (auto simp: plain_def split: if_splits)
    have new: "node_at t' p = (if p = d @ [f] then Some (File c) else node_at t p)" for p
      using t' by (simp add: node_at_create)
    from walk_create_mono [of t', OF new absent d] have "walk t' ?start cs = Some d" .
    moreover from dir absent have "node_at t' d = Some Dir"
      by (auto simp: new)
    ultimately have "resolve cwd t' ?dst = Some (d @ [f])"
      using f dst cs by (simp add: resolve_def walk_append new plain_def)
    moreover have "node_at t' (d @ [f]) = Some (File c)"
      by (simp add: new)
    ultimately show ?thesis using p c by blast
  qed
qed

end
